theory Spec2Isabelle
  imports Main "HOL-Library.Word"
begin

unbundle bit_operations_syntax

section \<open>JavaScript values and operators used by the STUN helpers\<close>

text \<open>
  A Node \<open>Buffer\<close> is a fixed-length array of unsigned 8-bit values. A JavaScript
  \<open>number\<close> that holds an integer is an \<open>int\<close>; the bitwise operators convert their
  operands to 32 bits first, which is written out below. Every helper returns either
  the thrown error (\<open>Inl\<close>) or the returned value (\<open>Inr\<close>). The source names start
  with an underscore, which is dropped here: \<open>_int2Buf16\<close> is \<open>int2Buf16\<close>, and so on.
\<close>

type_synonym byte = "8 word"
type_synonym Buffer = "byte list"

datatype js_error = RangeError | TypeError

datatype jsval =
    JUndefined
  | JNull
  | JBool bool
  | JNumber int
  | JString string
  | JBuffer Buffer

text \<open>\<open>ToInt32\<close>, \<open>ToUint32\<close> and \<open>ToUint8\<close> of an integral number: reduction modulo
  the width. Where an operand can be \<open>undefined\<close>, it converts to \<open>NaN\<close> and from
  there to 0.\<close>

definition ToInt32 :: "int \<Rightarrow> 32 word" where
  "ToInt32 n = word_of_int n"

definition ToUint32 :: "int \<Rightarrow> 32 word" where
  "ToUint32 n = word_of_int n"

definition ToUint8 :: "int \<Rightarrow> byte" where
  "ToUint8 n = word_of_int n"

text \<open>\<open>a >>> n\<close>: unsigned shift of the 32-bit value, by the count modulo 32.\<close>

definition js_ushr :: "int \<Rightarrow> int \<Rightarrow> int" where
  "js_ushr a n = uint (drop_bit (nat (n mod 32)) (ToUint32 a))"

text \<open>\<open>a << n\<close>: shift of the 32-bit value, by the count modulo 32; the result is
  signed. The left operand may be \<open>undefined\<close> (\<open>None\<close>).\<close>

definition js_shl :: "int option \<Rightarrow> int \<Rightarrow> int" where
  "js_shl a n =
     sint (push_bit (nat (n mod 32)) (case a of None \<Rightarrow> 0 | Some x \<Rightarrow> ToInt32 x))"

text \<open>\<open>a & b\<close>, where an operand may be \<open>undefined\<close> (\<open>None\<close>).\<close>

definition js_and :: "int option \<Rightarrow> int option \<Rightarrow> int" where
  "js_and a b =
     sint ((case a of None \<Rightarrow> 0 | Some x \<Rightarrow> ToInt32 x) AND
           (case b of None \<Rightarrow> 0 | Some y \<Rightarrow> ToInt32 y))"

text \<open>\<open>buffer[i]\<close>: the byte as a number, or \<open>undefined\<close> outside the buffer.\<close>

definition index :: "Buffer \<Rightarrow> int \<Rightarrow> int option" where
  "index buffer i =
     (if 0 \<le> i \<and> i < int (length buffer) then Some (uint (buffer ! nat i)) else None)"

text \<open>\<open>Buffer.alloc(n)\<close>: n zero bytes. \<open>buf[i] = v\<close> stores \<open>ToUint8 v\<close>; the helpers only
  store inside the buffer.\<close>

definition alloc :: "nat \<Rightarrow> Buffer" where
  "alloc n = replicate n 0"

definition store :: "Buffer \<Rightarrow> nat \<Rightarrow> int \<Rightarrow> Buffer" where
  "store buf i v = (if i < length buf then buf[i := ToUint8 v] else buf)"

section \<open>STUNHelpers\<close>

subsection \<open>\<open>_int2Buf16\<close>\<close>

definition int2Buf16 :: "int \<Rightarrow> js_error + Buffer" where
  "int2Buf16 n =
     (let buf = alloc 2;
          buf = store buf 0 (js_and (Some 0xFF) (Some (js_ushr n 8)));
          buf = store buf 1 (js_and (Some 0xFF) (Some n))
      in Inr buf)"

subsection \<open>\<open>_getBit\<close>\<close>

definition getBit :: "Buffer \<Rightarrow> int \<Rightarrow> int \<Rightarrow> js_error + int" where
  "getBit buffer idx off =
     (let mask = alloc 1;
          mask = store mask 0 0x01;
          mask = store mask 0 (js_shl (index mask 0) off)
      in Inr (if js_and (index buffer idx) (index mask 0) \<noteq> 0 then 1 else 0))"

subsection \<open>\<open>_compareBuf\<close>\<close>

definition isBuffer :: "jsval \<Rightarrow> bool" where
  "isBuffer v = (case v of JBuffer _ \<Rightarrow> True | _ \<Rightarrow> False)"

text \<open>The content of a value that is a \<open>Buffer\<close>.\<close>

fun bytes :: "jsval \<Rightarrow> Buffer" where
  "bytes (JBuffer x) = x"
| "bytes _ = []"

text \<open>The \<open>for\<close> loop from index \<open>i\<close> on: \<open>False\<close> at the first index whose bytes
  differ, \<open>True\<close> when the index reaches \<open>a.length\<close>.\<close>

function compareLoop :: "Buffer \<Rightarrow> Buffer \<Rightarrow> nat \<Rightarrow> bool" where
  "compareLoop a b i =
     (if i < length a
      then (if index a (int i) \<noteq> index b (int i) then False else compareLoop a b (i + 1))
      else True)"
  by pat_completeness auto
termination
  by (relation "measure (\<lambda>(a, b, i). length a - i)") auto

declare compareLoop.simps [simp del]

definition compareBuf :: "jsval \<Rightarrow> jsval \<Rightarrow> js_error + bool" where
  "compareBuf a b =
     (if \<not> isBuffer a \<or> \<not> isBuffer b then Inr False
      else if length (bytes a) \<noteq> length (bytes b) then Inr False
      else Inr (compareLoop (bytes a) (bytes b) 0))"

section \<open>STUNType\<close>

text \<open>The three fields are open to any value. A constructor argument that is missing
  is \<open>undefined\<close> and takes the default \<open>null\<close>.\<close>

record STUNType =
  type :: jsval
  bin :: jsval
  f :: jsval

definition default_param :: "jsval \<Rightarrow> jsval \<Rightarrow> jsval" where
  "default_param arg d = (if arg = JUndefined then d else arg)"

definition new_STUNType :: "jsval \<Rightarrow> jsval \<Rightarrow> jsval \<Rightarrow> STUNType" where
  "new_STUNType type0 bin0 f0 =
     \<lparr> type = default_param type0 JNull,
       bin = default_param bin0 JNull,
       f = default_param f0 JNull \<rparr>"


section \<open>Address conversion, from the specification\<close>

text \<open>
  The class \<open>STUNHelpers\<close> ends at line 109 of \<open>stun.ts\<close>. The text of
  \<open>_ipv4Str2Buf32\<close> and \<open>_ipv6Str2Buf128\<close> that follows it stands inside a block
  comment, so the program has no address helper. The two operations are modelled from
  their contracts in section 4.1 of the specification, under the names the
  specification gives them, \<open>ipv4ToBytes\<close> and \<open>ipv6ToBytes\<close>. A string is a list of
  characters.
\<close>


text \<open>Modelled from the spec: "split the input on \<open>.\<close>", and the colon-separated groups
  of an IPv6 string; the source has no splitting code outside the block comment. An
  input with n separators has n + 1 components.\<close>

primrec str_split :: "char \<Rightarrow> string \<Rightarrow> string list" where
  "str_split c [] = [[]]"
| "str_split c (x # xs) =
     (if x = c then [] # str_split c xs
      else (x # hd (str_split c xs)) # tl (str_split c xs))"


















section \<open>Properties of \<open>_int2Buf16\<close>\<close>

lemma and_0xFF_is_take_bit: "(255::32 word) AND w = take_bit 8 w"
proof -
  have "(255::32 word) = mask 8"
    by (simp add: mask_eq_exp_minus_1)
  then show ?thesis
    by (simp add: and.commute take_bit_eq_mask)
qed

lemma low_byte: "ToUint8 (js_and (Some 0xFF) (Some n)) = word_of_int n"
  unfolding ToUint8_def js_and_def ToInt32_def
  apply (simp add: and_0xFF_is_take_bit)
  apply (rule bit_word_eqI)
  apply (auto simp add: bit_simps)
  done

lemma div_256_is_drop_bit: "(n::int) div 256 = drop_bit 8 n"
  by (simp add: drop_bit_eq_div)

lemma high_byte: "(word_of_int (js_ushr n 8) :: byte) = word_of_int (n div 256)"
  unfolding js_ushr_def ToUint32_def div_256_is_drop_bit
  apply simp
  apply (rule bit_word_eqI)
  apply (auto simp add: bit_simps)
  done

lemma int2Buf16_bytes: "int2Buf16 n = Inr [word_of_int (n div 256), word_of_int n]"
  by (simp add: int2Buf16_def alloc_def store_def Let_def numeral_2_eq_2 low_byte high_byte)

lemma big_endian_reconstruct: "push_bit 8 ((v::int) div 256) OR (v mod 256) = v"
proof -
  have "push_bit 8 (drop_bit 8 v) OR take_bit 8 v = v"
    by (rule bit_eqI) (auto simp add: bit_simps)
  then show ?thesis
    by (simp add: drop_bit_eq_div take_bit_eq_mod)
qed

text \<open>
  C1. For every integer \<open>v\<close> from 0 to 65535, \<open>_int2Buf16 v\<close> returns exactly two bytes:
  the first holds the high-order 8 bits of \<open>v\<close> (\<open>v div 256\<close>), the second the low-order
  8 bits (\<open>v mod 256\<close>), and \<open>(byte[0] << 8) | byte[1]\<close> gives \<open>v\<close> back.
\<close>

theorem int2Buf16_big_endian:
  assumes "0 \<le> v" and "v \<le> 65535"
  shows "\<exists>b0 b1. int2Buf16 v = Inr [b0, b1] \<and> uint b0 = v div 256 \<and> uint b1 = v mod 256
           \<and> (push_bit 8 (uint b0) OR uint b1) = v"
proof -
  have h: "uint (word_of_int (v div 256) :: byte) = v div 256"
    using assms by (simp add: uint_word_of_int take_bit_eq_mod)
  have l: "uint (word_of_int v :: byte) = v mod 256"
    by (simp add: uint_word_of_int take_bit_eq_mod)
  show ?thesis
    unfolding int2Buf16_bytes using h l big_endian_reconstruct [of v] by simp
qed

theorem int2Buf16_big_endian_witness:
  "(0::int) \<le> 0x1234 \<and> (0x1234::int) \<le> 65535
   \<and> (\<exists>b0 b1. int2Buf16 0x1234 = Inr [b0, b1] \<and> uint b0 = 0x12 \<and> uint b1 = 0x34
        \<and> (push_bit 8 (uint b0) OR uint b1) = 0x1234)"
  using int2Buf16_big_endian [of "0x1234"] by simp

text \<open>
  C7. For every integer \<open>v\<close>, in particular every \<open>v\<close> outside 0..65535, \<open>_int2Buf16 v\<close>
  raises no error and returns the same two bytes as \<open>_int2Buf16 (v mod 65536)\<close>.
\<close>

theorem int2Buf16_wraps_mod_65536:
  "int2Buf16 v = int2Buf16 (v mod 65536) \<and> (\<exists>b0 b1. int2Buf16 v = Inr [b0, b1])"
proof -
  have "(word_of_int (take_bit 16 v) :: byte) = word_of_int v"
    by (rule bit_word_eqI) (auto simp add: bit_simps)
  then have a: "(word_of_int (v mod 65536) :: byte) = word_of_int v"
    by (simp add: take_bit_eq_mod)
  have "(word_of_int (drop_bit 8 (take_bit 16 v)) :: byte) = word_of_int (drop_bit 8 v)"
    by (rule bit_word_eqI) (auto simp add: bit_simps)
  then have b: "(word_of_int ((v mod 65536) div 256) :: byte) = word_of_int (v div 256)"
    by (simp add: take_bit_eq_mod drop_bit_eq_div)
  show ?thesis
    unfolding int2Buf16_bytes using a b by simp
qed

section \<open>Properties of \<open>_getBit\<close>\<close>

lemma mask_byte: "ToUint8 (js_shl (Some 1) off) = (push_bit (nat (off mod 32)) 1 :: byte)"
  unfolding ToUint8_def js_shl_def ToInt32_def
  apply simp
  apply (rule bit_word_eqI)
  apply (auto simp add: bit_simps)
  done

lemma mask_init: "index (store (alloc 1) 0 0x01) 0 = Some 1"
  by (simp add: alloc_def store_def index_def ToUint8_def)

lemma mask_shifted:
  "index (store (store (alloc 1) 0 0x01) 0 (js_shl (Some 1) off)) 0
     = Some (uint (push_bit (nat (off mod 32)) 1 :: byte))"
  by (simp add: alloc_def store_def index_def mask_byte)

text \<open>The mask is one byte wide: the shifted bit is kept modulo 256.\<close>

lemma getBit_mask:
  "getBit buffer idx off =
     Inr (if js_and (index buffer idx) (Some (uint (push_bit (nat (off mod 32)) 1 :: byte))) \<noteq> 0
          then 1 else 0)"
  unfolding getBit_def Let_def mask_init mask_shifted ..

lemma ucast_byte_0: "(ucast (x::byte) :: 32 word) = 0 \<longleftrightarrow> x = 0"
proof -
  have "uint (ucast x :: 32 word) = uint x"
    by (rule uint_up_ucast) (simp add: is_up)
  then show ?thesis
    by (metis uint_0_iff)
qed

lemma js_and_bytes:
  "js_and (Some (uint (b::byte))) (Some (uint (m::byte))) \<noteq> 0 \<longleftrightarrow> b AND m \<noteq> 0"
proof -
  have "(word_of_int (uint b) :: 32 word) AND word_of_int (uint m) = ucast (b AND m)"
    by (rule bit_word_eqI) (auto simp add: bit_simps)
  then show ?thesis
    by (simp add: js_and_def ToInt32_def signed_eq_0_iff ucast_byte_0)
qed

lemma js_and_undefined: "js_and None m = 0"
  by (simp add: js_and_def)

text \<open>
  C3. For a byte index inside the buffer and a bit offset from 0 to 7, \<open>_getBit\<close> returns
  0 or 1, and 1 exactly when the byte has a bit in common with the mask 1 shifted left by
  the offset, that is when bit \<open>off\<close> of the byte is set (offset 0 is the least
  significant bit). With byte 0 equal to \<open>0b00001000\<close>, position (0, 3) gives 1 and
  position (0, 0) gives 0.
\<close>

theorem getBit_reads_bit:
  assumes "0 \<le> idx" and "idx < int (length buffer)" and "0 \<le> off" and "off \<le> 7"
  shows "getBit buffer idx off
           = Inr (if buffer ! nat idx AND push_bit (nat off) 1 \<noteq> 0 then 1 else 0)
         \<and> (getBit buffer idx off = Inr 1 \<longleftrightarrow> bit (buffer ! nat idx) (nat off))
         \<and> (getBit buffer idx off = Inr 0 \<or> getBit buffer idx off = Inr 1)
         \<and> getBit (0b00001000 # rest) 0 3 = Inr 1
         \<and> getBit (0b00001000 # rest) 0 0 = Inr 0"
proof -
  have m: "off mod 32 = off"
    using assms by simp
  have 1: "getBit buffer idx off
             = Inr (if buffer ! nat idx AND push_bit (nat off) 1 \<noteq> 0 then 1 else 0)"
    using assms(1,2) unfolding getBit_mask m index_def
    by (simp only: js_and_bytes if_True conj_assoc simp_thms)
  have 2: "getBit buffer idx off = Inr 1 \<longleftrightarrow> bit (buffer ! nat idx) (nat off)"
    unfolding 1 by (simp add: bit_iff_and_push_bit_not_eq_0)
  have 3: "getBit buffer idx off = Inr 0 \<or> getBit buffer idx off = Inr 1"
    unfolding 1 by simp
  have 4: "getBit (0b00001000 # rest) 0 3 = Inr 1"
    by (simp add: getBit_mask index_def js_and_def ToInt32_def)
  have 5: "getBit (0b00001000 # rest) 0 0 = Inr 0"
    by (simp add: getBit_mask index_def js_and_def ToInt32_def)
  from 1 2 3 4 5 show ?thesis
    by blast
qed

theorem getBit_reads_bit_witness:
  "(0::int) \<le> 1 \<and> (1::int) < int (length [0x00, 0x05 :: byte]) \<and> (0::int) \<le> 2 \<and> (2::int) \<le> 7
   \<and> getBit [0x00, 0x05] 1 2 = Inr 1 \<and> bit (0x05 :: byte) 2
   \<and> getBit [0b00001000, 0xFF] 0 3 = Inr 1 \<and> getBit [0b00001000, 0xFF] 0 0 = Inr 0"
  using getBit_reads_bit [where idx = 1 and buffer = "[0x00, 0x05]" and off = 2 and rest = "[0xFF]"]
  by simp

text \<open>
  C4, as the code has it. For a byte index at or beyond the end of the buffer, \<open>_getBit\<close>
  raises nothing: \<open>buffer[idx]\<close> is \<open>undefined\<close>, the bitwise AND turns it into 0, and the
  function returns 0.
\<close>

theorem getBit_out_of_bounds_returns_0:
  "int (length buffer) \<le> idx \<Longrightarrow> getBit buffer idx off = Inr 0"
  by (simp add: getBit_mask index_def js_and_undefined)

theorem getBit_out_of_bounds_returns_0_witness:
  "int (length [0xFF :: byte]) \<le> 5 \<and> getBit [0xFF] 5 0 = Inr 0"
  using getBit_out_of_bounds_returns_0 [of "[0xFF]" 5 0] by simp

text \<open>
  C4, as the specification states it, fails: on the one-byte buffer \<open>[0xFF]\<close> and byte
  index 1 the function returns 0 and no error.
\<close>

theorem getBit_out_of_bounds_counterexample:
  "getBit [0xFF] 1 0 = Inr 0 \<and> \<not> isl (getBit [0xFF] 1 0)"
  by (simp add: getBit_mask index_def js_and_undefined)

text \<open>
  C10. The mask lives in a one-byte buffer, so a bit shifted to position 8..31 is lost:
  for a byte index inside the buffer and a bit offset from 8 to 31, \<open>_getBit\<close> returns 0
  whatever the byte holds, and raises nothing.
\<close>

theorem getBit_offset_8_to_31_returns_0:
  assumes "0 \<le> idx" and "idx < int (length buffer)" and "8 \<le> off" and "off \<le> 31"
  shows "getBit buffer idx off = Inr 0"
proof -
  have m: "off mod 32 = off"
    using assms by simp
  have z: "(push_bit (nat off) 1 :: byte) = 0"
    using assms by (simp add: push_bit_word_beyond)
  show ?thesis
    using assms(1,2) unfolding getBit_mask m z index_def
    by (simp add: js_and_def ToInt32_def)
qed

theorem getBit_offset_8_to_31_returns_0_witness:
  "(0::int) \<le> 0 \<and> (0::int) < int (length [0xFF :: byte]) \<and> (8::int) \<le> 9 \<and> (9::int) \<le> 31
   \<and> getBit [0xFF] 0 9 = Inr 0"
  using getBit_offset_8_to_31_returns_0 [of 0 "[0xFF]" 9] by simp

section \<open>Properties of \<open>_compareBuf\<close>\<close>

lemma compareLoop_iff:
  "compareLoop a b i \<longleftrightarrow>
     (\<forall>j. i \<le> j \<and> j < length a \<longrightarrow> index a (int j) = index b (int j))"
proof (induction a b i rule: compareLoop.induct)
  case (1 a b i)
  show ?case
  proof (cases "i < length a")
    case False
    then show ?thesis
      by (auto simp add: compareLoop.simps [of a b i])
  next
    case True
    show ?thesis
    proof (cases "index a (int i) = index b (int i)")
      case False
      with True show ?thesis
        by (auto simp add: compareLoop.simps [of a b i])
    next
      case eq: True
      have "compareLoop a b i = compareLoop a b (i + 1)"
        using True eq by (simp add: compareLoop.simps [of a b i])
      also have "\<dots> \<longleftrightarrow>
          (\<forall>j. i + 1 \<le> j \<and> j < length a \<longrightarrow> index a (int j) = index b (int j))"
        using 1 True eq by simp
      also have "\<dots> \<longleftrightarrow>
          (\<forall>j. i \<le> j \<and> j < length a \<longrightarrow> index a (int j) = index b (int j))"
        using eq by (metis Suc_eq_plus1 Suc_leI le_eq_less_or_eq Suc_leD)
      finally show ?thesis .
    qed
  qed
qed

lemma compareLoop_same_length:
  assumes "length a = length b"
  shows "compareLoop a b 0 \<longleftrightarrow> a = b"
proof -
  have "(\<forall>j<length a. index a (int j) = index b (int j)) \<longleftrightarrow> (\<forall>j<length a. a ! j = b ! j)"
    using assms by (simp add: index_def word_uint_eq_iff)
  then show ?thesis
    using assms by (simp add: compareLoop_iff list_eq_iff_nth_eq)
qed

lemma compareBuf_eq: "compareBuf a b = Inr (\<exists>x. a = JBuffer x \<and> b = JBuffer x)"
proof (cases "isBuffer a \<and> isBuffer b")
  case False
  then show ?thesis
    by (auto simp add: compareBuf_def isBuffer_def)
next
  case True
  then obtain x y where ab: "a = JBuffer x" "b = JBuffer y"
    by (auto simp add: isBuffer_def split: jsval.splits)
  show ?thesis
  proof (cases "length x = length y")
    case False
    then show ?thesis
      using ab by (auto simp add: compareBuf_def isBuffer_def)
  next
    case True
    then show ?thesis
      using ab by (auto simp add: compareBuf_def isBuffer_def compareLoop_same_length)
  qed
qed

text \<open>
  C2. \<open>_compareBuf\<close> never raises. It returns true exactly when both arguments are
  Buffers, of the same length, with the same byte at every index; a non-Buffer argument,
  a length mismatch or a differing byte gives false.
\<close>

theorem compareBuf_true_iff_equal_buffers:
  "compareBuf a b =
     Inr (\<exists>x y. a = JBuffer x \<and> b = JBuffer y \<and> length x = length y
                \<and> (\<forall>i<length x. x ! i = y ! i))"
  unfolding compareBuf_eq by (auto simp add: list_eq_iff_nth_eq)

theorem compareBuf_true_iff_equal_buffers_witness:
  "compareBuf (JBuffer [1, 2]) (JBuffer [1, 2]) = Inr True
   \<and> compareBuf (JBuffer [1, 2]) (JBuffer [1, 3]) = Inr False
   \<and> compareBuf (JBuffer [1, 2]) (JBuffer [1]) = Inr False
   \<and> compareBuf (JBuffer [1, 2]) (JString ''ab'') = Inr False"
  using compareBuf_true_iff_equal_buffers [of "JBuffer [1, 2]" "JBuffer [1, 2]"]
    compareBuf_true_iff_equal_buffers [of "JBuffer [1, 2]" "JBuffer [1, 3]"]
    compareBuf_true_iff_equal_buffers [of "JBuffer [1, 2]" "JBuffer [1]"]
    compareBuf_true_iff_equal_buffers [of "JBuffer [1, 2]" "JString ''ab''"]
  by (simp add: less_Suc_eq numeral_2_eq_2 all_conj_distrib)

text \<open>
  C8. \<open>_compareBuf\<close> is reflexive on Buffers, symmetric on all arguments, and false on
  two Buffers of different lengths.
\<close>

theorem compareBuf_reflexive_symmetric:
  "compareBuf (JBuffer x) (JBuffer x) = Inr True
   \<and> compareBuf a b = compareBuf b a
   \<and> (length x \<noteq> length y \<longrightarrow> compareBuf (JBuffer x) (JBuffer y) = Inr False)"
  unfolding compareBuf_eq by auto

theorem compareBuf_reflexive_symmetric_witness:
  "compareBuf (JBuffer [7]) (JBuffer [7]) = Inr True
   \<and> compareBuf (JBuffer [7]) JNull = compareBuf JNull (JBuffer [7])
   \<and> length [7 :: byte] \<noteq> length [7, 8 :: byte]
   \<and> compareBuf (JBuffer [7]) (JBuffer [7, 8]) = Inr False"
  using compareBuf_reflexive_symmetric [of "[7]" "JBuffer [7]" JNull "[7, 8]"] by simp

section \<open>Properties of \<open>STUNType\<close>\<close>

text \<open>
  C9. \<open>new STUNType()\<close> has \<open>null\<close> in all three fields, and assigning one field of an
  object stores the value there and leaves the other two fields as they were.
\<close>

theorem STUNType_defaults_and_independent_fields:
  "new_STUNType JUndefined JUndefined JUndefined = \<lparr>type = JNull, bin = JNull, f = JNull\<rparr>
   \<and> type (obj\<lparr>type := v\<rparr>) = v \<and> bin (obj\<lparr>type := v\<rparr>) = bin obj \<and> f (obj\<lparr>type := v\<rparr>) = f obj
   \<and> type (obj\<lparr>bin := v\<rparr>) = type obj \<and> bin (obj\<lparr>bin := v\<rparr>) = v \<and> f (obj\<lparr>bin := v\<rparr>) = f obj
   \<and> type (obj\<lparr>f := v\<rparr>) = type obj \<and> bin (obj\<lparr>f := v\<rparr>) = bin obj \<and> f (obj\<lparr>f := v\<rparr>) = v"
  by (simp add: new_STUNType_def default_param_def)

section \<open>Properties of \<open>ipv4ToBytes\<close>\<close>

lemma str_split_not_Nil: "str_split c s \<noteq> []"
  by (induction s) auto

lemma length_str_split: "length (str_split c s) = Suc (length (filter (\<lambda>x. x = c) s))"
  by (induction s) (auto simp add: str_split_not_Nil)


















section \<open>Properties of \<open>ipv6ToBytes\<close>\<close>




















end
